theory Spec2Isabelle
  imports Main
begin

section \<open>The regular expressions of the inline autoformatter\<close>

text \<open>
  \<open>convertInlineMarkdown\<close> (ParagraphBlock.jsx, lines 45-81) works with four regular
  expression literals, all with the global flag:
  \<^item> \<open>boldPattern = /\*\*([^*]+)\*\*/g\<close>
  \<^item> \<open>italicPattern = /(?<!\*)\*([^*]+)\*(?!\*)/g\<close>
  \<^item> \<open>strikePattern = /~~([^~]+)~~/g\<close>
  \<^item> \<open>codePattern\<close>: one backquote, \<open>([^q]+)\<close> with \<open>q\<close> the backquote, one backquote.

  All four have the same shape: an opening run of \<open>width\<close> copies of one delimiter
  character, a capture group of one or more characters other than the delimiter, and a
  closing run of \<open>width\<close> delimiters. The italic pattern also has a negative lookbehind
  and a negative lookahead for the delimiter (\<open>lone\<close>). A JavaScript string is a sequence
  of code units; a negated class without the \<open>u\<close> flag matches any single code unit
  other than the listed one (line terminators too), so the group is modelled over
  arbitrary characters of \<open>string\<close>.
\<close>

record pattern =
  delim :: char
  width :: nat
  lone :: bool

definition boldPattern :: pattern where
  "boldPattern = \<lparr>delim = CHR ''*'', width = 2, lone = False\<rparr>"

definition italicPattern :: pattern where
  "italicPattern = \<lparr>delim = CHR ''*'', width = 1, lone = True\<rparr>"

definition strikePattern :: pattern where
  "strikePattern = \<lparr>delim = CHR ''~'', width = 2, lone = False\<rparr>"

definition codePattern :: pattern where
  "codePattern = \<lparr>delim = CHR 0x60, width = 1, lone = False\<rparr>"

text \<open>
  The replacement strings, each \<open>$1\<close> (the capture group) between an opening and a
  closing tag: \<open><strong>$1</strong>\<close>, \<open><em>$1</em>\<close>, \<open><s>$1</s>\<close> and the
  \<open>code\<close> element with its class attribute (\<open>CHR 0x22\<close> is the double quote).
\<close>

type_synonym replacement = "string \<times> string"

definition boldTags :: replacement where
  "boldTags = (''<strong>'', ''</strong>'')"

definition italicTags :: replacement where
  "italicTags = (''<em>'', ''</em>'')"

definition strikeTags :: replacement where
  "strikeTags = (''<s>'', ''</s>'')"

definition codeTags :: replacement where
  "codeTags = (''<code class='' @ [CHR 0x22] @ ''bg-gray-100 px-1 rounded text-sm font-mono''
                 @ [CHR 0x22] @ ''>'', ''</code>'')"

text \<open>
  One match attempt of the backtracking matcher, anchored at the start of \<open>s\<close>;
  \<open>prev\<close> is the code unit before that position (\<open>None\<close> at index 0), which only the
  lookbehind reads. The greedy group takes the longest run of non-delimiters; giving a
  character back leaves a non-delimiter in front of the closing run, so backtracking
  never finds another match and the attempt is deterministic. The result is the capture
  group and the input after the match.
\<close>

definition match_at :: "pattern \<Rightarrow> char option \<Rightarrow> string \<Rightarrow> (string \<times> string) option" where
  "match_at p prev s =
     (let d = replicate (width p) (delim p);
          body = drop (width p) s;
          g = takeWhile (\<lambda>c. c \<noteq> delim p) body;
          r = dropWhile (\<lambda>c. c \<noteq> delim p) body;
          rest = drop (width p) r
      in if lone p \<and> prev = Some (delim p) then None
         else if take (width p) s \<noteq> d then None
         else if g = [] then None
         else if take (width p) r \<noteq> d then None
         else if lone p \<and> (case rest of [] \<Rightarrow> False | c # _ \<Rightarrow> c = delim p) then None
         else Some (g, rest))"

text \<open>
  RegExpBuiltinExec tries the positions from the start index upwards and stops at the
  first match: the result is the text skipped, the capture group and the input after
  the match. No pattern matches the empty string, so the attempt at the end of the
  input fails.
\<close>

fun search :: "pattern \<Rightarrow> char option \<Rightarrow> string \<Rightarrow> (string \<times> string \<times> string) option" where
  "search p prev [] = None"
| "search p prev (c # cs) =
     (case match_at p prev (c # cs) of
        Some (g, r) \<Rightarrow> Some ([], g, r)
      | None \<Rightarrow>
          (case search p (Some c) cs of
             None \<Rightarrow> None
           | Some (k, g, r) \<Rightarrow> Some (c # k, g, r)))"

lemma match_at_shorter:
  assumes "match_at p prev s = Some (g, r)"
  shows "length r < length s"
proof -
  let ?body = "drop (width p) s"
  let ?P = "\<lambda>c. c \<noteq> delim p"
  from assms have g: "takeWhile ?P ?body \<noteq> []"
    and r: "r = drop (width p) (dropWhile ?P ?body)"
    by (auto simp: match_at_def Let_def split: if_splits)
  have "length (takeWhile ?P ?body) + length (dropWhile ?P ?body) = length ?body"
    by (metis length_append takeWhile_dropWhile_id)
  moreover from g have "0 < length (takeWhile ?P ?body)"
    by simp
  moreover have "length ?body \<le> length s"
    by simp
  ultimately have "length (dropWhile ?P ?body) < length s"
    by linarith
  with r show ?thesis
    by simp
qed

text \<open>
  \<open>String.prototype.replace\<close> with a global regular expression: every match, found
  from left to right and each search starting where the last match ended, is replaced
  by the opening tag, the capture group and the closing tag; the text between matches
  is copied. After a match the code unit before the next position is the closing
  delimiter.
\<close>

function replace_from :: "pattern \<Rightarrow> replacement \<Rightarrow> char option \<Rightarrow> string \<Rightarrow> string" where
  "replace_from p tg prev [] = []"
| "replace_from p tg prev (c # cs) =
     (case match_at p prev (c # cs) of
        Some (g, r) \<Rightarrow> fst tg @ g @ snd tg @ replace_from p tg (Some (delim p)) r
      | None \<Rightarrow> c # replace_from p tg (Some c) cs)"
  by pat_completeness auto
termination
  by (relation "measure (\<lambda>(p, tg, prev, s). length s)")
     (auto dest: match_at_shorter)

section \<open>RegExp objects and the store they live in\<close>

text \<open>
  A RegExp object with the global flag carries the mutable \<open>lastIndex\<close>: \<open>test\<close> starts
  its search there and moves it. Evaluating a regular expression literal allocates a
  new object with \<open>lastIndex = 0\<close>. The store is the list of the objects allocated so
  far; a reference is the index \<open>new_RegExp\<close> returned, so it is always in range.
\<close>

record regexp =
  source :: pattern
  lastIndex :: nat

type_synonym heap = "regexp list"

definition new_RegExp :: "pattern \<Rightarrow> heap \<Rightarrow> nat \<times> heap" where
  "new_RegExp p h = (length h, h @ [\<lparr>source = p, lastIndex = 0\<rparr>])"

definition prev_unit :: "string \<Rightarrow> nat \<Rightarrow> char option" where
  "prev_unit s i = (if i = 0 then None else Some (s ! (i - 1)))"

text \<open>
  RegExpBuiltinExec for a global expression: a \<open>lastIndex\<close> beyond the input fails; a
  failure resets \<open>lastIndex\<close> to 0; a match (its index and capture group) moves
  \<open>lastIndex\<close> to the end of the match.
\<close>

definition regexp_exec :: "regexp \<Rightarrow> string \<Rightarrow> (nat \<times> string) option \<times> regexp" where
  "regexp_exec re s =
     (let i = lastIndex re
      in if length s < i then (None, re\<lparr>lastIndex := 0\<rparr>)
         else (case search (source re) (prev_unit s i) (drop i s) of
                 None \<Rightarrow> (None, re\<lparr>lastIndex := 0\<rparr>)
               | Some (k, g, r) \<Rightarrow>
                   (Some (i + length k, g), re\<lparr>lastIndex := length s - length r\<rparr>)))"

definition RegExp_test :: "nat \<Rightarrow> string \<Rightarrow> heap \<Rightarrow> bool \<times> heap" where
  "RegExp_test ref s h =
     (let (m, re') = regexp_exec (h ! ref) s in (m \<noteq> None, h[ref := re']))"

text \<open>
  \<open>s.replace(re, replacement)\<close> with a global \<open>re\<close> first sets \<open>lastIndex\<close> to 0 and
  runs exec until it fails, which leaves \<open>lastIndex\<close> at 0.
\<close>

definition String_replace :: "string \<Rightarrow> nat \<Rightarrow> replacement \<Rightarrow> heap \<Rightarrow> string \<times> heap" where
  "String_replace s ref tg h =
     (replace_from (source (h ! ref)) tg None s, h[ref := (h ! ref)\<lparr>lastIndex := 0\<rparr>])"

section \<open>convertInlineMarkdown\<close>

text \<open>
  ParagraphBlock.jsx, lines 45-81. The four blocks of the body run in the source's
  order; each evaluates its literal (a new object), tests the current text and, on a
  match, replaces every match and sets \<open>changed\<close>. The result is the pair
  \<open>(converted, changed)\<close> and the store the call leaves behind.
\<close>

definition convertInlineMarkdown :: "string \<Rightarrow> heap \<Rightarrow> (string \<times> bool) \<times> heap" where
  "convertInlineMarkdown html h0 =
     (let converted = html;
          changed = False;
          (boldRef, h) = new_RegExp boldPattern h0;
          (found, h) = RegExp_test boldRef converted h;
          (converted, changed, h) =
            (if found
             then (let (c, h') = String_replace converted boldRef boldTags h in (c, True, h'))
             else (converted, changed, h));
          (italicRef, h) = new_RegExp italicPattern h;
          (found, h) = RegExp_test italicRef converted h;
          (converted, changed, h) =
            (if found
             then (let (c, h') = String_replace converted italicRef italicTags h in (c, True, h'))
             else (converted, changed, h));
          (strikeRef, h) = new_RegExp strikePattern h;
          (found, h) = RegExp_test strikeRef converted h;
          (converted, changed, h) =
            (if found
             then (let (c, h') = String_replace converted strikeRef strikeTags h in (c, True, h'))
             else (converted, changed, h));
          (codeRef, h) = new_RegExp codePattern h;
          (found, h) = RegExp_test codeRef converted h;
          (converted, changed, h) =
            (if found
             then (let (c, h') = String_replace converted codeRef codeTags h in (c, True, h'))
             else (converted, changed, h))
      in ((converted, changed), h))"

text \<open>
  One of the four blocks of the body on its own, as a function of the variables it
  reads and writes (\<open>converted\<close>, \<open>changed\<close> and the store), and the same block
  without the store; \<open>convertInlineMarkdown_blocks\<close> and \<open>pattern_block_stage\<close>
  below show that the body is the four blocks in sequence. They are used in the proofs
  only.
\<close>

definition pattern_block ::
    "pattern \<Rightarrow> replacement \<Rightarrow> string \<times> bool \<times> heap \<Rightarrow> string \<times> bool \<times> heap" where
  "pattern_block p tg st =
     (case st of (converted, changed, h0) \<Rightarrow>
        (let (ref, h) = new_RegExp p h0;
             (found, h) = RegExp_test ref converted h
         in if found
            then (let (c, h') = String_replace converted ref tg h in (c, True, h'))
            else (converted, changed, h)))"

definition stage :: "pattern \<Rightarrow> replacement \<Rightarrow> string \<times> bool \<Rightarrow> string \<times> bool" where
  "stage p tg cc =
     (if search p None (fst cc) \<noteq> None then (replace_from p tg None (fst cc), True) else cc)"

text \<open>The delimiter characters, and texts without any of them.\<close>

definition is_delimiter :: "char \<Rightarrow> bool" where
  "is_delimiter c \<longleftrightarrow> c = CHR ''*'' \<or> c = CHR ''~'' \<or> c = CHR 0x60"

definition delimiter_free :: "string \<Rightarrow> bool" where
  "delimiter_free s = list_all (\<lambda>c. \<not> is_delimiter c) s"




text \<open>Every replacement is longer than the two delimiter runs it replaces.\<close>

definition tags_longer :: "pattern \<Rightarrow> replacement \<Rightarrow> bool" where
  "tags_longer p tg \<longleftrightarrow> 2 * width p < length (fst tg) + length (snd tg)"

text \<open>
  The invariant of the body for an input \<open>s\<close>: while \<open>changed\<close> is false the text is
  still \<open>s\<close>, and once it is true the text is longer than \<open>s\<close>.
\<close>

definition grown :: "string \<Rightarrow> string \<times> bool \<Rightarrow> bool" where
  "grown s cc \<longleftrightarrow> (if snd cc then length s < length (fst cc) else fst cc = s)"

text \<open>
  The number of delimiter characters of a text, and the invariant of the body that
  goes with it: once \<open>changed\<close> is true the text holds fewer of them than the input.
\<close>

definition delimiter_count :: "string \<Rightarrow> nat" where
  "delimiter_count s = length (filter is_delimiter s)"

definition shrunk :: "string \<Rightarrow> string \<times> bool \<Rightarrow> bool" where
  "shrunk s cc \<longleftrightarrow>
     (if snd cc then delimiter_count (fst cc) < delimiter_count s else fst cc = s)"

text \<open>
  \<open>n\<close> applications of the function in a row, each on the text the one before it
  returned, as \<open>handleInput\<close> applies it to the buffer it has written back.
\<close>

fun passes :: "nat \<Rightarrow> string \<Rightarrow> heap \<Rightarrow> string \<times> heap" where
  "passes 0 s h = (s, h)"
| "passes (Suc n) s h =
     (let ((converted, changed), h') = convertInlineMarkdown s h in passes n converted h')"

section \<open>Blocks and the calls to the editor store\<close>

text \<open>
  Modelled from the spec: the block types. The components read the constants
  \<open>BLOCK_TYPES.HEADING_1\<close>, \<open>HEADING_2\<close>, \<open>HEADING_3\<close>, \<open>TASK\<close> and \<open>QUOTE\<close> of
  \<open>constants/BLOCK_TYPES\<close>, which is not among the sources; the enumeration is the one
  of section 3 of the specification.
\<close>

datatype block_type =
  Paragraph | Heading1 | Heading2 | Heading3 | Task | Quote | Divider | Columns | Tabs

text \<open>
  A block as the components read it: \<open>block.id\<close>, \<open>block.type\<close>, \<open>block.content\<close> and
  \<open>block.properties\<close>, an object from property names to values (\<open>checked\<close> is a
  boolean). The store state the components read is \<open>document.blocks\<close>, a flat array that
  holds the nested blocks too (NestedBlock.jsx, line 22), and \<open>activeBlockId\<close>.
\<close>

datatype prop_value = PBool bool | PString string

record block =
  block_id :: string
  block_type :: block_type
  content :: string
  properties :: "string \<rightharpoonup> prop_value"

record editor_store =
  blocks :: "block list"
  activeBlockId :: "string option"

text \<open>
  The components change the store only through the functions \<open>useEditorStore\<close> hands
  them, \<open>updateNestedBlock(id, updates)\<close> and \<open>setActiveBlock(id)\<close>. A handler is
  modelled by the list of the calls it makes. The argument \<open>updates\<close> is an object
  with a \<open>content\<close> field or a \<open>properties\<close> field; a property of the update is a
  value to store (\<open>Put\<close>) or the sentinel that removes the key (\<open>Unset\<close>).
\<close>

datatype patch_value = Put prop_value | Unset

record block_patch =
  patch_content :: "string option"
  patch_properties :: "(string \<rightharpoonup> patch_value) option"

datatype store_call = UpdateNestedBlock string block_patch | SetActiveBlock string

text \<open>
  Modelled from the spec: the errors of the Block Repository (section 7), of which the
  store functions below use \<open>NotFound\<close> and \<open>moveBlock\<close> both. \<open>stores/editorStore\<close>,
  which holds the store, is not among the sources.
\<close>

datatype store_error = NotFound | InvariantViolation

text \<open>
  Modelled from the spec: \<open>updateContent(id, newContent)\<close> of the Block Repository
  (section 4.1; the store is not among the sources), the full replacement of the
  content. It fails with \<open>NotFound\<close>, and changes nothing, when no block has the id.
\<close>

definition updateContent :: "string \<Rightarrow> string \<Rightarrow> editor_store \<Rightarrow> store_error + editor_store" where
  "updateContent bid newContent st =
     (if bid \<notin> block_id ` set (blocks st) then Inl NotFound
      else Inr (st\<lparr>blocks :=
        map (\<lambda>b. if block_id b = bid then b\<lparr>content := newContent\<rparr> else b) (blocks st)\<rparr>))"

text \<open>
  Modelled from the spec: the shallow merge of \<open>updateProperties\<close> (section 4.1; the
  store is not among the sources). A key the patch does not name is untouched, a key
  mapped to the sentinel is removed, any other key takes the value of the patch.
\<close>

definition merge_properties ::
    "(string \<rightharpoonup> prop_value) \<Rightarrow> (string \<rightharpoonup> patch_value) \<Rightarrow> (string \<rightharpoonup> prop_value)" where
  "merge_properties old patch =
     (\<lambda>k. case patch k of None \<Rightarrow> old k | Some Unset \<Rightarrow> None | Some (Put v) \<Rightarrow> Some v)"

text \<open>
  Modelled from the spec: \<open>updateProperties(id, patch)\<close> of the Block Repository
  (section 4.1; the store is not among the sources). It fails with \<open>NotFound\<close>, and
  changes nothing, when no block has the id.
\<close>

definition updateProperties ::
    "string \<Rightarrow> (string \<rightharpoonup> patch_value) \<Rightarrow> editor_store \<Rightarrow> store_error + editor_store" where
  "updateProperties bid patch st =
     (if bid \<notin> block_id ` set (blocks st) then Inl NotFound
      else Inr (st\<lparr>blocks :=
        map (\<lambda>b. if block_id b = bid
                 then b\<lparr>properties := merge_properties (properties b) patch\<rparr> else b)
          (blocks st)\<rparr>))"

text \<open>
  Modelled from the spec: \<open>updateNestedBlock(id, updates)\<close> of the editor store, which is
  not among the sources. The specification names no such operation; the model gives a
  \<open>content\<close> field of the argument the effect of \<open>updateContent\<close> and a \<open>properties\<close>
  field the effect of \<open>updateProperties\<close> of section 4.1.
\<close>

definition updateNestedBlock :: "string \<Rightarrow> block_patch \<Rightarrow> editor_store \<Rightarrow> store_error + editor_store" where
  "updateNestedBlock bid updates st =
     (case (case patch_content updates of None \<Rightarrow> Inr st | Some c \<Rightarrow> updateContent bid c st) of
        Inl e \<Rightarrow> Inl e
      | Inr st' \<Rightarrow>
          (case patch_properties updates of
             None \<Rightarrow> Inr st'
           | Some ps \<Rightarrow> updateProperties bid ps st'))"

text \<open>
  Modelled from the spec: \<open>setActiveBlock(id)\<close> of the editor store, which is not among
  the sources, as \<open>setActive\<close> of the Focus Coordinator (section 4.5): the one active
  block becomes the given one.
\<close>

definition setActiveBlock :: "string \<Rightarrow> editor_store \<Rightarrow> editor_store" where
  "setActiveBlock bid st = st\<lparr>activeBlockId := Some bid\<rparr>"

text \<open>
  Modelled from the spec: the effect of one call on the store. A component ignores what
  a call returns, and a rejected operation applies no mutation (section 7), so a failed
  call leaves the store as it was.
\<close>

definition run_call :: "store_call \<Rightarrow> editor_store \<Rightarrow> editor_store" where
  "run_call c st =
     (case c of
        UpdateNestedBlock bid updates \<Rightarrow>
          (case updateNestedBlock bid updates st of Inl e \<Rightarrow> st | Inr st' \<Rightarrow> st')
      | SetActiveBlock bid \<Rightarrow> setActiveBlock bid st)"

text \<open>The calls of a handler, run in the order they were made.\<close>

definition run_calls :: "store_call list \<Rightarrow> editor_store \<Rightarrow> editor_store" where
  "run_calls cs st = fold run_call cs st"

section \<open>The editable surface and the key event\<close>

text \<open>
  The contentEditable element a component holds in \<open>contentRef\<close>: its buffer
  \<open>innerHTML\<close> and the caret, a logical offset into the buffer. The key event carries
  the key, the shift modifier, and the two flags \<open>preventDefault\<close> and
  \<open>stopPropagation\<close> set.
\<close>

record editable =
  innerHTML :: string
  caret :: nat

record keyboard_event =
  key :: string
  shiftKey :: bool
  defaultPrevented :: bool
  propagationStopped :: bool

text \<open>
  \<open>document.execCommand("insertLineBreak")\<close> is the browser's command, not code of the
  repository: the handlers take it as the argument \<open>execInsertLineBreak\<close>. For closed
  examples it is the splice of a line-break marker into the buffer at the caret (the
  Soft break row of section 4.2 of the specification).
\<close>

definition insertLineBreak_br :: "editable \<Rightarrow> editable" where
  "insertLineBreak_br el =
     el\<lparr>innerHTML := take (caret el) (innerHTML el) @ ''<br>'' @ drop (caret el) (innerHTML el),
        caret := caret el + 4\<rparr>"

section \<open>NestedBlock\<close>

text \<open>
  NestedBlock.jsx. The component instance holds \<open>blockId\<close> and two refs:
  \<open>contentRef\<close> (the element, or null before it is mounted) and \<open>initialContentRef\<close>
  (the content last synchronised, or null). \<open>find_block\<close> is line 22,
  \<open>doc.blocks.find((b) => b.id === blockId)\<close>.
\<close>

record nested_block =
  blockId :: string
  contentRef :: "editable option"
  initialContentRef :: "string option"

definition find_block :: "editor_store \<Rightarrow> string \<Rightarrow> block option" where
  "find_block st bid = find (\<lambda>b. block_id b = bid) (blocks st)"

text \<open>
  The two effects that run after a render (lines 26-40): the first stores the block's
  content in \<open>initialContentRef\<close> if that is still null, the second writes the block's
  content into the element if the element is empty.
\<close>

definition NestedBlock_effects :: "block option \<Rightarrow> nested_block \<Rightarrow> nested_block" where
  "NestedBlock_effects blk nb =
     (let nb = (case blk of
                  None \<Rightarrow> nb
                | Some b \<Rightarrow>
                    if initialContentRef nb = None then nb\<lparr>initialContentRef := Some (content b)\<rparr>
                    else nb)
      in case (contentRef nb, blk) of
           (Some el, Some b) \<Rightarrow>
             if innerHTML el = [] then nb\<lparr>contentRef := Some (el\<lparr>innerHTML := content b\<rparr>)\<rparr>
             else nb
         | _ \<Rightarrow> nb)"

text \<open>\<open>handleBlur\<close>, lines 43-51: the one place where the buffer is written to the store.\<close>

definition NestedBlock_handleBlur :: "nested_block \<Rightarrow> nested_block \<times> store_call list" where
  "NestedBlock_handleBlur nb =
     (case contentRef nb of
        None \<Rightarrow> (nb, [])
      | Some el \<Rightarrow>
          (let newContent = innerHTML el
           in if Some newContent \<noteq> initialContentRef nb
              then (nb\<lparr>initialContentRef := Some newContent\<rparr>,
                    [UpdateNestedBlock (blockId nb)
                       \<lparr>patch_content = Some newContent, patch_properties = None\<rparr>])
              else (nb, [])))"

text \<open>\<open>handleFocus\<close>, lines 54-56.\<close>

definition NestedBlock_handleFocus :: "nested_block \<Rightarrow> store_call list" where
  "NestedBlock_handleFocus nb = [SetActiveBlock (blockId nb)]"

text \<open>
  \<open>handleKeyDown\<close>, lines 59-68: Enter without shift cancels the default action and
  runs the line-break command on the focused element; every key event is stopped from
  propagating. The handler calls no function of the store.
\<close>

definition NestedBlock_handleKeyDown ::
    "(editable \<Rightarrow> editable) \<Rightarrow> keyboard_event \<Rightarrow> nested_block
      \<Rightarrow> keyboard_event \<times> nested_block \<times> store_call list" where
  "NestedBlock_handleKeyDown execInsertLineBreak e nb =
     (let (e, nb) =
        (if key e = ''Enter'' \<and> \<not> shiftKey e
         then (e\<lparr>defaultPrevented := True\<rparr>,
               nb\<lparr>contentRef := map_option execInsertLineBreak (contentRef nb)\<rparr>)
         else (e, nb))
      in (e\<lparr>propagationStopped := True\<rparr>, nb, []))"

text \<open>
  \<open>handleCheckboxChange\<close>, lines 71-82; \<open>blk\<close> is the block found at the render and
  \<open>checked\<close> is \<open>e.target.checked\<close>. The object passed to the store has the one field
  \<open>properties\<close>: the spread of the block's properties with \<open>checked\<close> replaced.
\<close>

definition NestedBlock_handleCheckboxChange ::
    "bool \<Rightarrow> block option \<Rightarrow> nested_block \<Rightarrow> store_call list" where
  "NestedBlock_handleCheckboxChange checked blk nb =
     (case blk of
        None \<Rightarrow> []
      | Some b \<Rightarrow>
          [UpdateNestedBlock (blockId nb)
             \<lparr>patch_content = None,
              patch_properties =
                Some ((map_option Put \<circ> properties b)(''checked'' \<mapsto> Put (PBool checked)))\<rparr>])"

text \<open>
  The events the element and the checkbox of a NestedBlock receive. The element has
  the props \<open>onBlur\<close>, \<open>onFocus\<close> and \<open>onKeyDown\<close> and no \<open>onInput\<close>: an edit of the user
  (\<open>Typed\<close>, with the new buffer) changes the element and runs no handler.
\<close>

datatype nested_event =
  Blur | Focus | KeyDown keyboard_event | CheckboxChange bool | Typed string

definition NestedBlock_dispatch ::
    "(editable \<Rightarrow> editable) \<Rightarrow> nested_event \<Rightarrow> block option \<Rightarrow> nested_block
      \<Rightarrow> nested_block \<times> store_call list" where
  "NestedBlock_dispatch execInsertLineBreak ev blk nb =
     (case ev of
        Blur \<Rightarrow> NestedBlock_handleBlur nb
      | Focus \<Rightarrow> (nb, NestedBlock_handleFocus nb)
      | KeyDown e \<Rightarrow> snd (NestedBlock_handleKeyDown execInsertLineBreak e nb)
      | CheckboxChange checked \<Rightarrow> (nb, NestedBlock_handleCheckboxChange checked blk nb)
      | Typed html \<Rightarrow>
          (nb\<lparr>contentRef := map_option (\<lambda>el. el\<lparr>innerHTML := html\<rparr>) (contentRef nb)\<rparr>, []))"

text \<open>
  A session on a NestedBlock: the events in the order they arrive, each with the block
  the render before it found; the calls of the handlers in that order.
\<close>

fun NestedBlock_session ::
    "(editable \<Rightarrow> editable) \<Rightarrow> (nested_event \<times> block option) list \<Rightarrow> nested_block
      \<Rightarrow> nested_block \<times> store_call list" where
  "NestedBlock_session execInsertLineBreak [] nb = (nb, [])"
| "NestedBlock_session execInsertLineBreak ((ev, blk) # evs) nb =
     (let (nb', cs) = NestedBlock_dispatch execInsertLineBreak ev blk nb;
          (nb'', cs') = NestedBlock_session execInsertLineBreak evs nb'
      in (nb'', cs @ cs'))"

text \<open>The content commits among the calls of a handler.\<close>

definition content_commits :: "store_call list \<Rightarrow> (string \<times> string) list" where
  "content_commits cs =
     concat (map (\<lambda>c. case c of
        UpdateNestedBlock bid updates \<Rightarrow>
          (case patch_content updates of None \<Rightarrow> [] | Some s \<Rightarrow> [(bid, s)])
      | SetActiveBlock bid \<Rightarrow> []) cs)"

section \<open>ParagraphBlock\<close>

text \<open>
  ParagraphBlock.jsx. The component changes nothing itself: it calls the props
  \<open>onContentChange\<close>, \<open>onKeyDown\<close> and \<open>onFocus\<close> of its parent. A handler is modelled by
  the list of these calls. \<open>handleInput\<close> (lines 84-113) runs on every input event of
  the element: it reads the buffer, converts it, writes the converted text back and
  moves the caret to the end when the conversion changed something, and passes the
  text to \<open>onContentChange\<close>.
\<close>

datatype callback =
  OnContentChange string string
| OnKeyDown keyboard_event string "editable option"
| OnFocus string

definition ParagraphBlock_handleInput ::
    "string \<Rightarrow> editable \<Rightarrow> heap \<Rightarrow> editable \<times> callback list \<times> heap" where
  "ParagraphBlock_handleInput bid el h =
     (let newContent = innerHTML el;
          ((converted, changed), h) = convertInlineMarkdown newContent h;
          (el, newContent) =
            (if changed
             then (el\<lparr>innerHTML := converted, caret := length converted\<rparr>, converted)
             else (el, newContent))
      in (el, [OnContentChange bid newContent], h))"

definition ParagraphBlock_handleKeyDown ::
    "keyboard_event \<Rightarrow> string \<Rightarrow> editable option \<Rightarrow> callback list" where
  "ParagraphBlock_handleKeyDown e bid el = [OnKeyDown e bid el]"

definition ParagraphBlock_handleFocus :: "string \<Rightarrow> callback list" where
  "ParagraphBlock_handleFocus bid = [OnFocus bid]"

section \<open>SortableBlock and the Reorder Engine\<close>

text \<open>
  SortableBlock (lines 38-40): \<open>isOver\<close>, \<open>isDragging\<close> and \<open>active\<close> come from
  \<open>useSortable\<close>; \<open>active\<close> is the id of the item being dragged (\<open>active?.id\<close>, undefined
  when nothing is dragged) and \<open>bid\<close> is \<open>block.id\<close>.
\<close>

definition showDropIndicator :: "bool \<Rightarrow> bool \<Rightarrow> string option \<Rightarrow> string \<Rightarrow> bool" where
  "showDropIndicator isOver isDragging active bid \<longleftrightarrow>
     isOver \<and> \<not> isDragging \<and> active \<noteq> Some bid"

text \<open>
  Modelled from the spec: the Reorder Engine of section 4.3 and \<open>moveBlock\<close> of section
  4.1; the handler that ends a drag and the store are not among the sources. The
  order of a document is the sequence of its root blocks and, for every container, the
  sequence of its children; the parent of a block is the container that lists it.
\<close>

record order_doc =
  root_order :: "string list"
  containers :: "(string \<times> string list) list"

text \<open>
  Modelled from the spec: the ids an order sequence refers to (section 3); a block
  exists when it is among them.
\<close>

definition all_ids :: "order_doc \<Rightarrow> string list" where
  "all_ids d = root_order d @ concat (map snd (containers d))"

text \<open>
  Modelled from the spec: \<open>parentId\<close> (section 3), the container whose children
  sequence holds the block, none for a root block.
\<close>

definition parent_of :: "order_doc \<Rightarrow> string \<Rightarrow> string option" where
  "parent_of d x = map_option fst (find (\<lambda>(c, ch). x \<in> set ch) (containers d))"

text \<open>
  Modelled from the spec: the order sequence a parent owns (section 3): the root
  sequence for no parent, the children of a container otherwise.
\<close>

definition sequence_of :: "order_doc \<Rightarrow> string option \<Rightarrow> string list" where
  "sequence_of d parent =
     (case parent of
        None \<Rightarrow> root_order d
      | Some c \<Rightarrow> (case map_of (containers d) c of None \<Rightarrow> [] | Some ch \<Rightarrow> ch))"

text \<open>
  Modelled from the spec: the block \<open>x\<close> and the containers above it, at most \<open>n\<close>
  levels up, for the cycle test of \<open>moveBlock\<close> (section 4.1).
\<close>

fun ancestors :: "nat \<Rightarrow> order_doc \<Rightarrow> string \<Rightarrow> string list" where
  "ancestors 0 d x = [x]"
| "ancestors (Suc n) d x =
     x # (case parent_of d x of None \<Rightarrow> [] | Some p \<Rightarrow> ancestors n d p)"

text \<open>
  Modelled from the spec: the insertion at the destination index, "shifting others"
  (section 4.1).
\<close>

definition insert_at :: "nat \<Rightarrow> 'a \<Rightarrow> 'a list \<Rightarrow> 'a list" where
  "insert_at i x xs = take i xs @ [x] @ drop i xs"

text \<open>
  Modelled from the spec: the removal of a block from its current order sequence
  (section 4.1).
\<close>

definition detach :: "string \<Rightarrow> order_doc \<Rightarrow> order_doc" where
  "detach bid d =
     d\<lparr>root_order := removeAll bid (root_order d),
       containers := map (\<lambda>(c, ch). (c, removeAll bid ch)) (containers d)\<rparr>"

text \<open>
  Modelled from the spec: the insertion of a block into the sequence of the destination
  parent at the destination index (section 4.1).
\<close>

definition attach :: "string \<Rightarrow> string option \<Rightarrow> nat \<Rightarrow> order_doc \<Rightarrow> order_doc" where
  "attach bid dest i d =
     (case dest of
        None \<Rightarrow> d\<lparr>root_order := insert_at i bid (root_order d)\<rparr>
      | Some p \<Rightarrow>
          d\<lparr>containers :=
              map (\<lambda>(c, ch). if c = p then (c, insert_at i bid ch) else (c, ch)) (containers d)\<rparr>)"

text \<open>
  Modelled from the spec: \<open>moveBlock(id, destinationParentId | null, destinationIndex)\<close>
  of the Block Repository (section 4.1), not among the sources: \<open>NotFound\<close> when the
  block or the destination container does not exist, \<open>InvariantViolation\<close> when the
  destination is the block itself or one of its descendants; otherwise the block is
  removed from its sequence and inserted at the index of the destination sequence.
\<close>

definition moveBlock ::
    "string \<Rightarrow> string option \<Rightarrow> nat \<Rightarrow> order_doc \<Rightarrow> store_error + order_doc" where
  "moveBlock bid dest i d =
     (if bid \<notin> set (all_ids d) then Inl NotFound
      else (case dest of
              None \<Rightarrow> Inr (attach bid None i (detach bid d))
            | Some p \<Rightarrow>
                if map_of (containers d) p = None then Inl NotFound
                else if bid \<in> set (ancestors (length (all_ids d)) d p) then Inl InvariantViolation
                else Inr (attach bid dest i (detach bid d))))"

text \<open>
  Modelled from the spec: the gesture record of section 4.3: the dragged block, the
  block under the pointer, the vertical position of the pointer from the top of that
  block and the block's height, and the horizontal offset of the pointer.
\<close>

record gesture =
  source_id :: string
  hovered_id :: string
  pointer_y :: int
  hovered_height :: int
  pointer_x :: int

text \<open>
  Modelled from the spec: the place above or below an anchor block, as a parent and an
  index; the index counts in the sequence without the dragged block (section 4.3).
\<close>

definition place_next_to :: "order_doc \<Rightarrow> string \<Rightarrow> string \<Rightarrow> bool \<Rightarrow> string option \<times> nat" where
  "place_next_to d src anchor below =
     (let parent = parent_of d anchor;
          others = removeAll src (sequence_of d parent);
          i = length (takeWhile (\<lambda>x. x \<noteq> anchor) others)
      in (parent, if below then i + 1 else i))"

text \<open>
  Modelled from the spec: the resolution of a gesture (section 4.3). The drop resolves
  to above the hovered block in its top half and to below it otherwise. When the
  hovered block is the child of a container, a horizontal offset of at least the
  threshold \<open>thr\<close> targets the inside of the container (a place next to the hovered
  block), a smaller one the level of the container itself (a place next to the
  container). A self-drop, and a hovered block that is no longer in the document,
  resolve to no move.
\<close>

definition resolve :: "int \<Rightarrow> gesture \<Rightarrow> order_doc \<Rightarrow> (string \<times> string option \<times> nat) option" where
  "resolve thr g d =
     (if source_id g = hovered_id g then None
      else if hovered_id g \<notin> set (all_ids d) then None
      else (let below = \<not> (2 * pointer_y g < hovered_height g)
            in case parent_of d (hovered_id g) of
                 None \<Rightarrow> Some (source_id g, place_next_to d (source_id g) (hovered_id g) below)
               | Some c \<Rightarrow>
                   if thr \<le> pointer_x g
                   then Some (source_id g, place_next_to d (source_id g) (hovered_id g) below)
                   else Some (source_id g, place_next_to d (source_id g) c below)))"

text \<open>
  Modelled from the spec: the release of the pointer (section 4.3) commits the move the
  gesture resolves to; no move, or a move the repository rejects, leaves the order as
  it was.
\<close>

definition release :: "int \<Rightarrow> gesture \<Rightarrow> order_doc \<Rightarrow> order_doc" where
  "release thr g d =
     (case resolve thr g d of
        None \<Rightarrow> d
      | Some (bid, dest, i) \<Rightarrow>
          (case moveBlock bid dest i d of Inl e \<Rightarrow> d | Inr d' \<Rightarrow> d'))"

section \<open>Properties of the matcher\<close>

lemma match_at_SomeD:
  assumes "match_at p prev s = Some (g, r)"
  shows "s = replicate (width p) (delim p) @ g @ replicate (width p) (delim p) @ r"
    and "g \<noteq> []" and "delim p \<notin> set g"
    and "\<not> (lone p \<and> prev = Some (delim p))"
    and "\<not> (lone p \<and> (\<exists>r'. r = delim p # r'))"
proof -
  let ?w = "width p"
  let ?body = "drop ?w s"
  let ?P = "\<lambda>c. c \<noteq> delim p"
  from assms have op_eq: "take ?w s = replicate ?w (delim p)"
    and g: "g = takeWhile ?P ?body" "g \<noteq> []"
    and cl_eq: "take ?w (dropWhile ?P ?body) = replicate ?w (delim p)"
    and r: "r = drop ?w (dropWhile ?P ?body)"
    and behind: "\<not> (lone p \<and> prev = Some (delim p))"
    and ahead: "\<not> (lone p \<and> (case r of [] \<Rightarrow> False | c # _ \<Rightarrow> c = delim p))"
    by (auto simp: match_at_def Let_def split: if_splits)
  have "s = take ?w s @ ?body"
    by simp
  also have "?body = g @ dropWhile ?P ?body"
    by (simp add: g)
  also have "dropWhile ?P ?body = take ?w (dropWhile ?P ?body) @ r"
    by (simp add: r)
  finally show "s = replicate ?w (delim p) @ g @ replicate ?w (delim p) @ r"
    by (simp only: op_eq cl_eq)
  show "g \<noteq> []"
    by (rule g(2))
  show "delim p \<notin> set g"
    unfolding g(1) by (auto dest: set_takeWhileD)
  show "\<not> (lone p \<and> prev = Some (delim p))"
    by (rule behind)
  from ahead show "\<not> (lone p \<and> (\<exists>r'. r = delim p # r'))"
    by auto
qed


lemma match_at_Nil: "0 < width p \<Longrightarrow> match_at p prev [] = None"
  by (simp add: match_at_def Let_def)

lemma match_at_length:
  "match_at p prev s = Some (g, r) \<Longrightarrow> length s = 2 * width p + length g + length r"
  by (drule match_at_SomeD(1)) (erule ssubst, simp)

lemma match_at_no_delim:
  assumes "delim p \<notin> set s" and "0 < width p"
  shows "match_at p prev s = None"
proof (cases "match_at p prev s")
  case None
  then show ?thesis .
next
  case (Some gr)
  then obtain g r where "match_at p prev s = Some (g, r)"
    by (cases gr) auto
  from match_at_SomeD(1) [OF this] assms show ?thesis
    by (cases "width p") auto
qed

lemma search_no_delim: "delim p \<notin> set s \<Longrightarrow> 0 < width p \<Longrightarrow> search p prev s = None"
  by (induction s arbitrary: prev) (simp_all add: match_at_no_delim)

lemma replace_from_no_match: "search p prev s = None \<Longrightarrow> replace_from p tg prev s = s"
  by (induction s arbitrary: prev) (auto split: option.splits)

lemma replace_from_length_le:
  "2 * width p < length (fst tg) + length (snd tg) \<Longrightarrow>
     length s \<le> length (replace_from p tg prev s)"
proof (induction p tg prev s rule: replace_from.induct)
  case (1 p tg prev)
  show ?case by simp
next
  case (2 p tg prev c cs)
  show ?case
  proof (cases "match_at p prev (c # cs)")
    case None
    with "2.IH"(1) "2.prems" show ?thesis by simp
  next
    case (Some gr)
    then obtain g r where m: "match_at p prev (c # cs) = Some (g, r)"
      by (cases gr) auto
    from "2.IH"(2) [OF m refl "2.prems"] "2.prems" match_at_length [OF m] show ?thesis
      using m by simp
  qed
qed

lemma replace_from_length_less:
  "2 * width p < length (fst tg) + length (snd tg) \<Longrightarrow> search p prev s \<noteq> None \<Longrightarrow>
     length s < length (replace_from p tg prev s)"
proof (induction s arbitrary: prev)
  case Nil
  then show ?case by simp
next
  case (Cons c cs)
  show ?case
  proof (cases "match_at p prev (c # cs)")
    case None
    with Cons.prems(2) have "search p (Some c) cs \<noteq> None"
      by (auto split: option.splits)
    with Cons.IH [OF Cons.prems(1)] None show ?thesis by simp
  next
    case (Some gr)
    then obtain g r where m: "match_at p prev (c # cs) = Some (g, r)"
      by (cases gr) auto
    from replace_from_length_le [OF Cons.prems(1), of r "Some (delim p)"]
      Cons.prems(1) match_at_length [OF m] show ?thesis
      using m by simp
  qed
qed

section \<open>A lone run of one delimiter character\<close>





















section \<open>The body of convertInlineMarkdown as four stages\<close>

lemma regexp_exec_fresh:
  "fst (regexp_exec \<lparr>source = p, lastIndex = 0\<rparr> s) \<noteq> None \<longleftrightarrow> search p None s \<noteq> None"
  by (auto simp: regexp_exec_def prev_unit_def split: option.splits)

lemma source_regexp_exec: "source (snd (regexp_exec re s)) = source re"
  by (auto simp: regexp_exec_def Let_def split: option.splits)

lemma RegExp_test_fresh:
  "RegExp_test (length h) s (h @ [\<lparr>source = p, lastIndex = 0\<rparr>]) =
     (search p None s \<noteq> None, h @ [snd (regexp_exec \<lparr>source = p, lastIndex = 0\<rparr> s)])"
  using regexp_exec_fresh [of p s] by (simp add: RegExp_test_def split_def)

lemma String_replace_last:
  "String_replace s (length h) tg (h @ [re]) =
     (replace_from (source re) tg None s, h @ [re\<lparr>lastIndex := 0\<rparr>])"
  by (simp add: String_replace_def)

lemma pattern_block_stage:
  "\<exists>re. pattern_block p tg (fst cc, snd cc, h) = (fst (stage p tg cc), snd (stage p tg cc), h @ [re])"
  by (simp add: pattern_block_def new_RegExp_def RegExp_test_fresh String_replace_last
      source_regexp_exec stage_def)

lemma convertInlineMarkdown_blocks:
  "convertInlineMarkdown html h0 =
     (case pattern_block codePattern codeTags (pattern_block strikePattern strikeTags
        (pattern_block italicPattern italicTags (pattern_block boldPattern boldTags (html, False, h0)))) of
        (converted, changed, h) \<Rightarrow> ((converted, changed), h))"
  by (simp only: convertInlineMarkdown_def pattern_block_def Let_def split_def fst_conv snd_conv)

lemma convertInlineMarkdown_result:
  "\<exists>r1 r2 r3 r4. convertInlineMarkdown html h =
     (stage codePattern codeTags (stage strikePattern strikeTags
        (stage italicPattern italicTags (stage boldPattern boldTags (html, False)))),
      h @ [r1, r2, r3, r4])"
proof -
  let ?b = "stage boldPattern boldTags (html, False)"
  let ?i = "stage italicPattern italicTags ?b"
  let ?s = "stage strikePattern strikeTags ?i"
  let ?c = "stage codePattern codeTags ?s"
  obtain r1 where 1: "pattern_block boldPattern boldTags (html, False, h) = (fst ?b, snd ?b, h @ [r1])"
    using pattern_block_stage [of boldPattern boldTags "(html, False)" h] by auto
  obtain r2 where 2: "pattern_block italicPattern italicTags (fst ?b, snd ?b, h @ [r1]) =
      (fst ?i, snd ?i, h @ [r1, r2])"
    using pattern_block_stage [of italicPattern italicTags ?b "h @ [r1]"] by auto
  obtain r3 where 3: "pattern_block strikePattern strikeTags (fst ?i, snd ?i, h @ [r1, r2]) =
      (fst ?s, snd ?s, h @ [r1, r2, r3])"
    using pattern_block_stage [of strikePattern strikeTags ?i "h @ [r1, r2]"] by auto
  obtain r4 where 4: "pattern_block codePattern codeTags (fst ?s, snd ?s, h @ [r1, r2, r3]) =
      (fst ?c, snd ?c, h @ [r1, r2, r3, r4])"
    using pattern_block_stage [of codePattern codeTags ?s "h @ [r1, r2, r3]"] by auto
  have "convertInlineMarkdown html h = (?c, h @ [r1, r2, r3, r4])"
    by (simp add: convertInlineMarkdown_blocks 1 2 3 4)
  then show ?thesis
    by blast
qed

lemma convertInlineMarkdown_stages:
  "fst (convertInlineMarkdown html h) =
     stage codePattern codeTags (stage strikePattern strikeTags
       (stage italicPattern italicTags (stage boldPattern boldTags (html, False))))"
  using convertInlineMarkdown_result [of html h] by auto

lemma tags_longer_all:
  "tags_longer boldPattern boldTags" "tags_longer italicPattern italicTags"
  "tags_longer strikePattern strikeTags" "tags_longer codePattern codeTags"
  by (simp_all add: tags_longer_def boldPattern_def boldTags_def italicPattern_def italicTags_def
      strikePattern_def strikeTags_def codePattern_def codeTags_def)

lemma stage_grown:
  assumes "tags_longer p tg" and "grown s cc"
  shows "grown s (stage p tg cc)"
proof (cases "search p None (fst cc) = None")
  case True
  with assms(2) show ?thesis by (simp add: stage_def)
next
  case False
  from assms(1) have long: "2 * width p < length (fst tg) + length (snd tg)"
    by (simp add: tags_longer_def)
  from assms(2) have "length s \<le> length (fst cc)"
    by (auto simp: grown_def split: if_splits)
  also have "\<dots> < length (replace_from p tg None (fst cc))"
    using long False by (rule replace_from_length_less)
  finally show ?thesis
    using False by (simp add: stage_def grown_def)
qed

lemma convertInlineMarkdown_grown: "grown s (fst (convertInlineMarkdown s h))"
proof -
  have "grown s (html, False)" if "html = s" for html
    using that by (simp add: grown_def)
  then show ?thesis
    unfolding convertInlineMarkdown_stages
    by (intro stage_grown tags_longer_all) simp
qed

lemma unchanged_same:
  "\<not> snd (fst (convertInlineMarkdown s h)) \<Longrightarrow> fst (fst (convertInlineMarkdown s h)) = s"
  using convertInlineMarkdown_grown [of s h] by (simp add: grown_def)

lemma stage_no_delim:
  "delim p \<notin> set (fst cc) \<Longrightarrow> 0 < width p \<Longrightarrow> stage p tg cc = cc"
  by (simp add: stage_def search_no_delim)

lemma delimiter_free_fixed:
  assumes "delimiter_free t"
  shows "fst (convertInlineMarkdown t h) = (t, False)"
proof -
  from assms have "CHR ''*'' \<notin> set t" "CHR ''~'' \<notin> set t" "CHR 0x60 \<notin> set t"
    by (auto simp: delimiter_free_def is_delimiter_def list_all_iff)
  then show ?thesis
    by (simp add: convertInlineMarkdown_stages stage_no_delim boldPattern_def italicPattern_def
        strikePattern_def codePattern_def)
qed

section \<open>The claims about the autoformatter\<close>

text \<open>
  C2. Scenario 5 of the specification: on the input \<open>**bold** and *it*alic\<close> the
  function wraps \<open>bold\<close> in the bold markup and \<open>it\<close> in the italic markup, leaves the
  trailing \<open>alic\<close> as literal text, and reports a change. This holds in every store.
\<close>

theorem autoformat_scenario5:
  "fst (convertInlineMarkdown ''**bold** and *it*alic'' h) =
     (''<strong>bold</strong> and <em>it</em>alic'', True)"
  unfolding convertInlineMarkdown_stages by code_simp

text \<open>
  C9. The function is pure and stateless across calls: its result does not depend on
  the store it is called in (whatever RegExp objects, with whatever \<open>lastIndex\<close>,
  earlier calls left there), a second call on the same input right after the first
  returns the same pair, and the call leaves every object that existed before it
  untouched. The reason is that each call evaluates its four literals anew.
\<close>

theorem convertInlineMarkdown_pure:
  "fst (convertInlineMarkdown s h) = fst (convertInlineMarkdown s h')
   \<and> fst (convertInlineMarkdown s (snd (convertInlineMarkdown s h))) = fst (convertInlineMarkdown s h)
   \<and> take (length h) (snd (convertInlineMarkdown s h)) = h"
proof -
  obtain r1 r2 r3 r4 where "snd (convertInlineMarkdown s h) = h @ [r1, r2, r3, r4]"
    using convertInlineMarkdown_result [of s h] by auto
  then show ?thesis
    by (simp add: convertInlineMarkdown_stages)
qed

text \<open>
  C10. The flag \<open>changed\<close> is true exactly when the returned text differs from the
  input; so \<open>changed = false\<close> means that the text comes back as it went in.
\<close>

theorem changed_iff_differs:
  "snd (fst (convertInlineMarkdown s h)) \<longleftrightarrow> fst (fst (convertInlineMarkdown s h)) \<noteq> s"
  using convertInlineMarkdown_grown [of s h]
  by (auto simp: grown_def split: if_splits)




lemma tags_shape:
  "width boldPattern = 2" "width italicPattern = 1" "width strikePattern = 2" "width codePattern = 1"
  "delim boldPattern = CHR ''*''" "delim italicPattern = CHR ''*''"
  "delim strikePattern = CHR ''~''" "delim codePattern = CHR 0x60"
  "fst boldTags \<noteq> []" "snd boldTags \<noteq> []" "fst italicTags \<noteq> []" "snd italicTags \<noteq> []"
  "fst strikeTags \<noteq> []" "snd strikeTags \<noteq> []" "fst codeTags \<noteq> []" "snd codeTags \<noteq> []"
  by (simp_all add: boldPattern_def boldTags_def italicPattern_def italicTags_def
      strikePattern_def strikeTags_def codePattern_def codeTags_def)













text \<open>
  Three asterisks on each side: the bold pass takes the inner two of each side, the
  asterisks left over are lone in its output, and the italic pass converts them.
\<close>

lemma triple_asterisks:
  "fst (convertInlineMarkdown ''***a***'' h) = (''<em><strong>a</strong></em>'', True)"
  unfolding convertInlineMarkdown_stages by code_simp



section \<open>The claims about the components\<close>

lemma content_commits_append [simp]:
  "content_commits (cs @ cs') = content_commits cs @ content_commits cs'"
  by (simp add: content_commits_def)

lemma dispatch_commits:
  "content_commits (snd (NestedBlock_dispatch ilb ev blk nb)) =
     (if ev = Blur
      then (case contentRef nb of
              None \<Rightarrow> []
            | Some el \<Rightarrow>
                if Some (innerHTML el) \<noteq> initialContentRef nb then [(blockId nb, innerHTML el)]
                else [])
      else [])"
  by (cases ev)
     (auto simp: NestedBlock_dispatch_def NestedBlock_handleBlur_def NestedBlock_handleFocus_def
       NestedBlock_handleKeyDown_def NestedBlock_handleCheckboxChange_def content_commits_def
       Let_def split: option.splits)

lemma dispatch_commits_length:
  "length (content_commits (snd (NestedBlock_dispatch ilb ev blk nb))) \<le> (if ev = Blur then 1 else 0)"
  by (simp add: dispatch_commits split: option.splits)

lemma session_commits_bound:
  "length (content_commits (snd (NestedBlock_session ilb evs nb))) \<le>
     length (filter (\<lambda>e. fst e = Blur) evs)"
proof (induction evs arbitrary: nb)
  case Nil
  show ?case by (simp add: content_commits_def)
next
  case (Cons e evs)
  obtain ev blk where e: "e = (ev, blk)"
    by (cases e)
  obtain nb' cs where d: "NestedBlock_dispatch ilb ev blk nb = (nb', cs)"
    by (cases "NestedBlock_dispatch ilb ev blk nb")
  obtain nb'' cs' where s: "NestedBlock_session ilb evs nb' = (nb'', cs')"
    by (cases "NestedBlock_session ilb evs nb'")
  from dispatch_commits_length [of ilb ev blk nb] d
  have 1: "length (content_commits cs) \<le> (if ev = Blur then 1 else 0)"
    by simp
  from Cons.IH [of nb'] s
  have 2: "length (content_commits cs') \<le> length (filter (\<lambda>e. fst e = Blur) evs)"
    by simp
  from 1 2 show ?case
    by (auto simp: e d s split: if_splits)
qed

text \<open>
  C4, as stated, fails for a top-level paragraph: \<open>handleInput\<close> of ParagraphBlock runs
  on every input event and passes the buffer to \<open>onContentChange\<close> each time (its
  comments say that content is synced to the store via \<open>onInput\<close>). Two input events
  in a row, the buffer growing from \<open>a\<close> to \<open>ab\<close>, give two commits.
\<close>

theorem paragraph_input_counterexample:
  "fst (snd (ParagraphBlock_handleInput ''p1'' \<lparr>innerHTML = ''a'', caret = 1\<rparr> [])) =
     [OnContentChange ''p1'' ''a'']
   \<and> fst (snd (ParagraphBlock_handleInput ''p1'' \<lparr>innerHTML = ''ab'', caret = 2\<rparr>
        (snd (snd (ParagraphBlock_handleInput ''p1'' \<lparr>innerHTML = ''a'', caret = 1\<rparr> []))))) =
     [OnContentChange ''p1'' ''ab'']"
  by code_simp

text \<open>
  C4, amended. For a block nested in a container the store receives a content commit
  only on blur:
  \<^item> no event of a NestedBlock other than blur (typing, focus, a key, the checkbox)
    makes a call that carries content;
  \<^item> blur commits the buffer once, when the element is mounted and the buffer differs
    from the content last synchronised, and nothing otherwise;
  \<^item> so in a session the commits are no more than the blur events.

  For a top-level paragraph every input event passes the buffer, as converted by the
  autoformatter, to \<open>onContentChange\<close>.
\<close>

theorem content_commit_checkpoints:
  "(ev \<noteq> Blur \<longrightarrow> content_commits (snd (NestedBlock_dispatch ilb ev blk nb)) = [])
   \<and> content_commits (snd (NestedBlock_dispatch ilb Blur blk nb)) =
       (case contentRef nb of
          None \<Rightarrow> []
        | Some el \<Rightarrow>
            if Some (innerHTML el) \<noteq> initialContentRef nb then [(blockId nb, innerHTML el)]
            else [])
   \<and> length (content_commits (snd (NestedBlock_session ilb evs nb))) \<le>
       length (filter (\<lambda>e. fst e = Blur) evs)
   \<and> fst (snd (ParagraphBlock_handleInput bid el h)) =
       [OnContentChange bid (fst (fst (convertInlineMarkdown (innerHTML el) h)))]"
proof -
  have 1: "ev \<noteq> Blur \<longrightarrow> content_commits (snd (NestedBlock_dispatch ilb ev blk nb)) = []"
    by (simp add: dispatch_commits)
  have 2: "content_commits (snd (NestedBlock_dispatch ilb Blur blk nb)) =
       (case contentRef nb of
          None \<Rightarrow> []
        | Some el \<Rightarrow>
            if Some (innerHTML el) \<noteq> initialContentRef nb then [(blockId nb, innerHTML el)]
            else [])"
    by (simp add: dispatch_commits)
  have 3: "fst (snd (ParagraphBlock_handleInput bid el h)) =
       [OnContentChange bid (fst (fst (convertInlineMarkdown (innerHTML el) h)))]"
    by (simp add: ParagraphBlock_handleInput_def Let_def split_def unchanged_same)
  show ?thesis
    by (intro conjI) (rule 1, rule 2, rule session_commits_bound, rule 3)
qed

theorem content_commit_checkpoints_witness:
  "Typed ''abc'' \<noteq> Blur
   \<and> content_commits (snd (NestedBlock_dispatch insertLineBreak_br (Typed ''abc'') None
        \<lparr>blockId = ''n1'', contentRef = Some \<lparr>innerHTML = ''ab'', caret = 2\<rparr>,
         initialContentRef = Some ''ab''\<rparr>)) = []"
  using content_commit_checkpoints [of "Typed ''abc''" insertLineBreak_br None
      "\<lparr>blockId = ''n1'', contentRef = Some \<lparr>innerHTML = ''ab'', caret = 2\<rparr>,
        initialContentRef = Some ''ab''\<rparr>"]
  by simp

text \<open>
  C3, as stated, fails for a block nested in a container. Enter without modifier in
  the nested paragraph \<open>n1\<close> with the buffer \<open>ABCD\<close> and the caret at offset 2: the
  handler cancels the default action, the line break goes into the buffer of the same
  block, and no function of the store is called, so the store keeps its two blocks with
  their contents: there is no new block with the content \<open>CD\<close>.
\<close>

theorem nested_enter_counterexample:
  "NestedBlock_handleKeyDown insertLineBreak_br
     \<lparr>key = ''Enter'', shiftKey = False, defaultPrevented = False, propagationStopped = False\<rparr>
     \<lparr>blockId = ''n1'', contentRef = Some \<lparr>innerHTML = ''ABCD'', caret = 2\<rparr>,
      initialContentRef = Some ''ABCD''\<rparr> =
     (\<lparr>key = ''Enter'', shiftKey = False, defaultPrevented = True, propagationStopped = True\<rparr>,
      \<lparr>blockId = ''n1'', contentRef = Some \<lparr>innerHTML = ''AB<br>CD'', caret = 6\<rparr>,
       initialContentRef = Some ''ABCD''\<rparr>,
      [])
   \<and> map content (blocks (run_calls (snd (snd (NestedBlock_handleKeyDown insertLineBreak_br
        \<lparr>key = ''Enter'', shiftKey = False, defaultPrevented = False, propagationStopped = False\<rparr>
        \<lparr>blockId = ''n1'', contentRef = Some \<lparr>innerHTML = ''ABCD'', caret = 2\<rparr>,
         initialContentRef = Some ''ABCD''\<rparr>)))
        \<lparr>blocks = [\<lparr>block_id = ''c1'', block_type = Columns, content = '''', properties = Map.empty\<rparr>,
                   \<lparr>block_id = ''n1'', block_type = Paragraph, content = ''ABCD'',
                    properties = Map.empty\<rparr>],
         activeBlockId = Some ''n1''\<rparr>)) = ['''', ''ABCD'']"
  by (simp add: NestedBlock_handleKeyDown_def insertLineBreak_br_def run_calls_def)

text \<open>
  C3, amended. In a block nested in a container Enter does not split. Enter without
  shift cancels the default action, runs the line-break command on the block's own
  element and stops the propagation; any other key event is only stopped from
  propagating; in both cases the handler makes no call to the store, which stays as it
  is. A top-level ParagraphBlock hands every key event, with the block id and its
  element, to the \<open>onKeyDown\<close> handler of its parent, which is where a split can
  happen.
\<close>

theorem nested_enter_inserts_line_break:
  "(key e = ''Enter'' \<and> \<not> shiftKey e \<longrightarrow>
      NestedBlock_handleKeyDown ilb e nb =
        (e\<lparr>defaultPrevented := True, propagationStopped := True\<rparr>,
         nb\<lparr>contentRef := map_option ilb (contentRef nb)\<rparr>, []))
   \<and> (\<not> (key e = ''Enter'' \<and> \<not> shiftKey e) \<longrightarrow>
      NestedBlock_handleKeyDown ilb e nb = (e\<lparr>propagationStopped := True\<rparr>, nb, []))
   \<and> run_calls (snd (snd (NestedBlock_handleKeyDown ilb e nb))) st = st
   \<and> ParagraphBlock_handleKeyDown e bid el = [OnKeyDown e bid el]"
  by (simp add: NestedBlock_handleKeyDown_def run_calls_def ParagraphBlock_handleKeyDown_def)

theorem nested_enter_inserts_line_break_witness:
  "key \<lparr>key = ''Enter'', shiftKey = False, defaultPrevented = False, propagationStopped = False\<rparr>
     = ''Enter''
   \<and> \<not> shiftKey \<lparr>key = ''Enter'', shiftKey = False, defaultPrevented = False,
        propagationStopped = False\<rparr>
   \<and> NestedBlock_handleKeyDown insertLineBreak_br
       \<lparr>key = ''Enter'', shiftKey = False, defaultPrevented = False, propagationStopped = False\<rparr>
       \<lparr>blockId = ''n1'', contentRef = Some \<lparr>innerHTML = ''ABCD'', caret = 2\<rparr>,
        initialContentRef = Some ''ABCD''\<rparr> =
       (\<lparr>key = ''Enter'', shiftKey = False, defaultPrevented = True, propagationStopped = True\<rparr>,
        \<lparr>blockId = ''n1'', contentRef = Some \<lparr>innerHTML = ''AB<br>CD'', caret = 6\<rparr>,
         initialContentRef = Some ''ABCD''\<rparr>,
        [])"
  using nested_enter_inserts_line_break [of
      "\<lparr>key = ''Enter'', shiftKey = False, defaultPrevented = False, propagationStopped = False\<rparr>"
      insertLineBreak_br
      "\<lparr>blockId = ''n1'', contentRef = Some \<lparr>innerHTML = ''ABCD'', caret = 2\<rparr>,
        initialContentRef = Some ''ABCD''\<rparr>"]
  by (simp add: insertLineBreak_br_def)

text \<open>
  The model of the Reorder Engine gives the two moves of scenario 3 of the
  specification: dragging \<open>A\<close> below \<open>C\<close> in \<open>[A, B, C]\<close> gives \<open>[B, C, A]\<close>, and
  dragging it back above \<open>B\<close> restores \<open>[A, B, C]\<close>.
\<close>

lemma reorder_scenario3:
  "release 20 \<lparr>source_id = ''A'', hovered_id = ''C'', pointer_y = 30, hovered_height = 40,
      pointer_x = 0\<rparr> \<lparr>root_order = [''A'', ''B'', ''C''], containers = []\<rparr> =
     \<lparr>root_order = [''B'', ''C'', ''A''], containers = []\<rparr>"
  "release 20 \<lparr>source_id = ''A'', hovered_id = ''B'', pointer_y = 5, hovered_height = 40,
      pointer_x = 0\<rparr> \<lparr>root_order = [''B'', ''C'', ''A''], containers = []\<rparr> =
     \<lparr>root_order = [''A'', ''B'', ''C''], containers = []\<rparr>"
  by code_simp+

text \<open>
  C7. A self-drop is a no-op: when the dragged block is the hovered block, the gesture
  resolves to no move and the release leaves the order of the roots and of every
  container, and with it every parent, as it was; and SortableBlock shows no drop
  indicator on the dragged block itself (\<open>active\<close> is the dragged block).
\<close>

theorem self_drop_noop:
  assumes "source_id g = hovered_id g"
  shows "resolve thr g d = None \<and> release thr g d = d
     \<and> \<not> showDropIndicator isOver isDragging (Some (source_id g)) (hovered_id g)"
  using assms by (simp add: resolve_def release_def showDropIndicator_def)

theorem self_drop_noop_witness:
  "source_id \<lparr>source_id = ''A'', hovered_id = ''A'', pointer_y = 30, hovered_height = 40,
      pointer_x = 0\<rparr> =
     hovered_id \<lparr>source_id = ''A'', hovered_id = ''A'', pointer_y = 30, hovered_height = 40,
      pointer_x = 0\<rparr>
   \<and> release 20 \<lparr>source_id = ''A'', hovered_id = ''A'', pointer_y = 30, hovered_height = 40,
        pointer_x = 0\<rparr> \<lparr>root_order = [''A'', ''B'', ''C''], containers = []\<rparr> =
       \<lparr>root_order = [''A'', ''B'', ''C''], containers = []\<rparr>
   \<and> \<not> showDropIndicator True False (Some ''A'') ''A''"
  using self_drop_noop [of "\<lparr>source_id = ''A'', hovered_id = ''A'', pointer_y = 30,
      hovered_height = 40, pointer_x = 0\<rparr>" 20
      "\<lparr>root_order = [''A'', ''B'', ''C''], containers = []\<rparr>" True False]
  by simp

lemma find_map_same_id:
  assumes "\<And>x. block_id (f x) = block_id x"
  shows "find (\<lambda>b. block_id b = bid) (map f xs) = map_option f (find (\<lambda>b. block_id b = bid) xs)"
  by (induction xs) (simp_all add: assms)

lemma filter_map_other:
  "filter (\<lambda>x. block_id x \<noteq> bid)
     (map (\<lambda>x. if block_id x = bid then x\<lparr>properties := g x\<rparr> else x) xs) =
   filter (\<lambda>x. block_id x \<noteq> bid) xs"
  by (induction xs) simp_all

lemma find_block_SomeD:
  "find_block st bid = Some b \<Longrightarrow> block_id b = bid \<and> b \<in> set (blocks st)"
  by (auto simp: find_block_def find_Some_iff)

lemma merge_spread:
  "merge_properties ps ((map_option Put \<circ> ps)(k \<mapsto> Put v)) = ps(k \<mapsto> v)"
  by (rule ext) (simp add: merge_properties_def split: option.splits)

lemma checkbox_store:
  assumes "find_block st (blockId nb) = Some b"
  shows "run_calls (NestedBlock_handleCheckboxChange v (find_block st (blockId nb)) nb) st =
     st\<lparr>blocks := map (\<lambda>x. if block_id x = blockId nb
        then x\<lparr>properties := merge_properties (properties x)
               ((map_option Put \<circ> properties b)(''checked'' \<mapsto> Put (PBool v)))\<rparr>
        else x) (blocks st)\<rparr>"
proof -
  from find_block_SomeD [OF assms] have "blockId nb \<in> block_id ` set (blocks st)"
    by (metis imageI)
  then show ?thesis
    by (simp add: assms NestedBlock_handleCheckboxChange_def run_calls_def run_call_def
        updateNestedBlock_def updateProperties_def)
qed

text \<open>
  C8. Toggling the checkbox of a block found in the store changes only the key
  \<open>checked\<close> of its properties. The handler makes one call, whose argument has no
  \<open>content\<close> field and whose \<open>properties\<close> are the spread of the block's properties with
  \<open>checked\<close> replaced. After the call the block found under the id has the same id,
  type and content, \<open>checked\<close> is the new value and every other property key is as
  before; no block changes id, type or content, the blocks with another id are
  untouched, and so is the active block.
\<close>

theorem checkbox_toggle_frame:
  assumes "find_block st (blockId nb) = Some b"
  shows "NestedBlock_handleCheckboxChange v (Some b) nb =
       [UpdateNestedBlock (blockId nb)
          \<lparr>patch_content = None,
           patch_properties =
             Some ((map_option Put \<circ> properties b)(''checked'' \<mapsto> Put (PBool v)))\<rparr>]
     \<and> (\<exists>b'. find_block (run_calls (NestedBlock_handleCheckboxChange v
                (find_block st (blockId nb)) nb) st) (blockId nb) = Some b'
          \<and> block_id b' = block_id b \<and> block_type b' = block_type b \<and> content b' = content b
          \<and> properties b' ''checked'' = Some (PBool v)
          \<and> (\<forall>k. k \<noteq> ''checked'' \<longrightarrow> properties b' k = properties b k))
     \<and> map block_id (blocks (run_calls (NestedBlock_handleCheckboxChange v
            (find_block st (blockId nb)) nb) st)) = map block_id (blocks st)
     \<and> map block_type (blocks (run_calls (NestedBlock_handleCheckboxChange v
            (find_block st (blockId nb)) nb) st)) = map block_type (blocks st)
     \<and> map content (blocks (run_calls (NestedBlock_handleCheckboxChange v
            (find_block st (blockId nb)) nb) st)) = map content (blocks st)
     \<and> filter (\<lambda>x. block_id x \<noteq> blockId nb) (blocks (run_calls
            (NestedBlock_handleCheckboxChange v (find_block st (blockId nb)) nb) st)) =
         filter (\<lambda>x. block_id x \<noteq> blockId nb) (blocks st)
     \<and> activeBlockId (run_calls (NestedBlock_handleCheckboxChange v
            (find_block st (blockId nb)) nb) st) = activeBlockId st"
proof -
  let ?st' = "run_calls (NestedBlock_handleCheckboxChange v (find_block st (blockId nb)) nb) st"
  let ?p = "(map_option Put \<circ> properties b)(''checked'' \<mapsto> Put (PBool v))"
  let ?f = "\<lambda>x. if block_id x = blockId nb
        then x\<lparr>properties := merge_properties (properties x) ?p\<rparr> else x"
  have st': "?st' = st\<lparr>blocks := map ?f (blocks st)\<rparr>"
    using assms by (rule checkbox_store)
  have id: "block_id (?f x) = block_id x" for x
    by simp
  from find_block_SomeD [OF assms] have b: "block_id b = blockId nb"
    by simp
  have 1: "NestedBlock_handleCheckboxChange v (Some b) nb =
      [UpdateNestedBlock (blockId nb) \<lparr>patch_content = None, patch_properties = Some ?p\<rparr>]"
    by (simp add: NestedBlock_handleCheckboxChange_def)
  have "find_block ?st' (blockId nb) = Some (?f b)"
    unfolding st' using assms by (simp add: find_block_def find_map_same_id [of ?f, OF id])
  then have 2: "\<exists>b'. find_block ?st' (blockId nb) = Some b'
          \<and> block_id b' = block_id b \<and> block_type b' = block_type b \<and> content b' = content b
          \<and> properties b' ''checked'' = Some (PBool v)
          \<and> (\<forall>k. k \<noteq> ''checked'' \<longrightarrow> properties b' k = properties b k)"
    using b by (simp add: merge_spread)
  have 3: "map block_id (blocks ?st') = map block_id (blocks st)"
    unfolding st' by (simp add: comp_def)
  have 4: "map block_type (blocks ?st') = map block_type (blocks st)"
    unfolding st' by (simp add: comp_def)
  have 5: "map content (blocks ?st') = map content (blocks st)"
    unfolding st' by (simp add: comp_def)
  have 6: "filter (\<lambda>x. block_id x \<noteq> blockId nb) (blocks ?st') =
      filter (\<lambda>x. block_id x \<noteq> blockId nb) (blocks st)"
    unfolding st' by (simp add: filter_map_other)
  have 7: "activeBlockId ?st' = activeBlockId st"
    unfolding st' by simp
  show ?thesis
    by (intro conjI) (rule 1, rule 2, rule 3, rule 4, rule 5, rule 6, rule 7)
qed

theorem checkbox_toggle_frame_witness:
  "find_block
      \<lparr>blocks = [\<lparr>block_id = ''t1'', block_type = Task, content = ''buy milk'',
          properties = [''color'' \<mapsto> PString ''red'', ''checked'' \<mapsto> PBool False]\<rparr>],
        activeBlockId = None\<rparr>
      (blockId \<lparr>blockId = ''t1'', contentRef = None, initialContentRef = None\<rparr>) =
     Some \<lparr>block_id = ''t1'', block_type = Task, content = ''buy milk'',
          properties = [''color'' \<mapsto> PString ''red'', ''checked'' \<mapsto> PBool False]\<rparr>
   \<and> (\<exists>b'. find_block (run_calls (NestedBlock_handleCheckboxChange True
          (find_block \<lparr>blocks = [\<lparr>block_id = ''t1'', block_type = Task, content = ''buy milk'',
          properties = [''color'' \<mapsto> PString ''red'', ''checked'' \<mapsto> PBool False]\<rparr>],
        activeBlockId = None\<rparr> (blockId \<lparr>blockId = ''t1'', contentRef = None, initialContentRef = None\<rparr>)) \<lparr>blockId = ''t1'', contentRef = None, initialContentRef = None\<rparr>) \<lparr>blocks = [\<lparr>block_id = ''t1'', block_type = Task, content = ''buy milk'',
          properties = [''color'' \<mapsto> PString ''red'', ''checked'' \<mapsto> PBool False]\<rparr>],
        activeBlockId = None\<rparr>) (blockId \<lparr>blockId = ''t1'', contentRef = None, initialContentRef = None\<rparr>) = Some b'
        \<and> block_type b' = Task \<and> content b' = ''buy milk''
        \<and> properties b' ''checked'' = Some (PBool True)
        \<and> properties b' ''color'' = Some (PString ''red''))"
proof -
  have h: "find_block \<lparr>blocks = [\<lparr>block_id = ''t1'', block_type = Task, content = ''buy milk'',
          properties = [''color'' \<mapsto> PString ''red'', ''checked'' \<mapsto> PBool False]\<rparr>],
        activeBlockId = None\<rparr> (blockId \<lparr>blockId = ''t1'', contentRef = None, initialContentRef = None\<rparr>) = Some \<lparr>block_id = ''t1'', block_type = Task, content = ''buy milk'',
          properties = [''color'' \<mapsto> PString ''red'', ''checked'' \<mapsto> PBool False]\<rparr>"
    by (simp add: find_block_def)
  from checkbox_toggle_frame [OF h, of True] h show ?thesis
    by fastforce
qed

section \<open>Further properties\<close>

lemma delimiter_count_append [simp]:
  "delimiter_count (x @ y) = delimiter_count x + delimiter_count y"
  by (simp add: delimiter_count_def)

lemma delimiter_count_free: "delimiter_free s \<Longrightarrow> delimiter_count s = 0"
  by (induction s) (simp_all add: delimiter_count_def delimiter_free_def)

lemma delimiter_count_0: "delimiter_count s = 0 \<Longrightarrow> delimiter_free s"
  by (induction s) (simp_all add: delimiter_count_def delimiter_free_def split: if_splits)

lemma delimiter_count_replicate:
  "is_delimiter c \<Longrightarrow> delimiter_count (replicate n c) = n"
  by (induction n) (simp_all add: delimiter_count_def)

lemma replace_from_count_le:
  "delimiter_free (fst tg) \<Longrightarrow> delimiter_free (snd tg) \<Longrightarrow>
     delimiter_count (replace_from p tg prev s) \<le> delimiter_count s"
proof (induction p tg prev s rule: replace_from.induct)
  case (1 p tg prev)
  show ?case by simp
next
  case (2 p tg prev c cs)
  show ?case
  proof (cases "match_at p prev (c # cs)")
    case None
    from "2.IH"(1) [OF None "2.prems"] have
      "delimiter_count (replace_from p tg (Some c) cs) \<le> delimiter_count cs" .
    with None show ?thesis
      by (simp add: delimiter_count_def)
  next
    case (Some gr)
    then obtain g r where m: "match_at p prev (c # cs) = Some (g, r)"
      by (cases gr) auto
    have s: "delimiter_count (c # cs) =
        delimiter_count (replicate (width p) (delim p)) + delimiter_count g
        + delimiter_count (replicate (width p) (delim p)) + delimiter_count r"
      by (subst match_at_SomeD(1) [OF m]) simp
    from "2.IH"(2) [OF m refl "2.prems"] have
      "delimiter_count (replace_from p tg (Some (delim p)) r) \<le> delimiter_count r" .
    with s "2.prems" m show ?thesis
      by (simp add: delimiter_count_free)
  qed
qed

lemma replace_from_count_less:
  assumes "delimiter_free (fst tg)" "delimiter_free (snd tg)" "is_delimiter (delim p)"
    "0 < width p"
  shows "search p prev s \<noteq> None \<Longrightarrow>
     delimiter_count (replace_from p tg prev s) < delimiter_count s"
proof (induction s arbitrary: prev)
  case Nil
  then show ?case by simp
next
  case (Cons c cs)
  show ?case
  proof (cases "match_at p prev (c # cs)")
    case None
    with Cons.prems have "search p (Some c) cs \<noteq> None"
      by (auto split: option.splits)
    from Cons.IH [OF this] None show ?thesis
      by (simp add: delimiter_count_def)
  next
    case (Some gr)
    then obtain g r where m: "match_at p prev (c # cs) = Some (g, r)"
      by (cases gr) auto
    have s: "delimiter_count (c # cs) = width p + delimiter_count g + width p + delimiter_count r"
      by (subst match_at_SomeD(1) [OF m]) (simp add: delimiter_count_replicate assms(3))
    from replace_from_count_le [OF assms(1,2), of p "Some (delim p)" r]
      s assms m show ?thesis
      by (simp add: delimiter_count_free)
  qed
qed

lemma stage_shrunk:
  assumes "delimiter_free (fst tg)" "delimiter_free (snd tg)" "is_delimiter (delim p)"
    "0 < width p" and "shrunk s cc"
  shows "shrunk s (stage p tg cc)"
proof (cases "search p None (fst cc) = None")
  case True
  with assms(5) show ?thesis by (simp add: stage_def)
next
  case False
  from assms(5) have "delimiter_count (fst cc) \<le> delimiter_count s"
    by (auto simp: shrunk_def split: if_splits)
  moreover have "delimiter_count (replace_from p tg None (fst cc)) < delimiter_count (fst cc)"
    using assms(1-4) False by (rule replace_from_count_less)
  ultimately show ?thesis
    using False by (simp add: stage_def shrunk_def)
qed

lemma tags_delimiter_free:
  "delimiter_free (fst boldTags)" "delimiter_free (snd boldTags)"
  "delimiter_free (fst italicTags)" "delimiter_free (snd italicTags)"
  "delimiter_free (fst strikeTags)" "delimiter_free (snd strikeTags)"
  "delimiter_free (fst codeTags)" "delimiter_free (snd codeTags)"
  by (simp_all add: delimiter_free_def is_delimiter_def boldTags_def italicTags_def
      strikeTags_def codeTags_def)

lemma convertInlineMarkdown_shrunk: "shrunk s (fst (convertInlineMarkdown s h))"
proof -
  have "shrunk s (s, False)"
    by (simp add: shrunk_def)
  then show ?thesis
    unfolding convertInlineMarkdown_stages
    by (intro stage_shrunk tags_delimiter_free) (simp_all add: tags_shape is_delimiter_def)
qed

lemma passes_fixed:
  "\<not> snd (fst (convertInlineMarkdown s h0)) \<Longrightarrow> fst (passes n s h) = s"
proof (induction n arbitrary: h)
  case 0
  show ?case by simp
next
  case (Suc n)
  from Suc.prems have u: "fst (convertInlineMarkdown s h) = (s, False)"
    using unchanged_same [of s h] convertInlineMarkdown_stages [of s h]
      convertInlineMarkdown_stages [of s h0]
    by (metis prod.collapse)
  obtain h' where "convertInlineMarkdown s h = ((s, False), h')"
    using u by (cases "convertInlineMarkdown s h") auto
  with Suc.IH [OF Suc.prems, of h'] show ?case
    by simp
qed

lemma passes_settle:
  "delimiter_count s \<le> n \<Longrightarrow>
     fst (convertInlineMarkdown (fst (passes n s h)) h') = (fst (passes n s h), False)"
proof (induction n arbitrary: s h)
  case 0
  then have "delimiter_free s"
    by (simp add: delimiter_count_0)
  then show ?case
    by (simp add: delimiter_free_fixed)
next
  case (Suc n)
  obtain c ch h1 where p: "convertInlineMarkdown s h = ((c, ch), h1)"
    by (cases "convertInlineMarkdown s h") auto
  from convertInlineMarkdown_shrunk [of s h] p
  have sh: "if ch then delimiter_count c < delimiter_count s else c = s"
    by (auto simp: shrunk_def split: if_splits)
  show ?case
  proof (cases ch)
    case True
    with sh Suc.prems have "delimiter_count c \<le> n"
      by simp
    from Suc.IH [OF this, of h1] p show ?thesis
      by simp
  next
    case False
    with sh have c: "c = s" by simp
    from p False have "\<not> snd (fst (convertInlineMarkdown s h))"
      by simp
    then have f: "fst (passes n s h1) = s"
      by (rule passes_fixed)
    from p False c have "fst (convertInlineMarkdown s h') = (s, False)"
      using convertInlineMarkdown_stages [of s h] convertInlineMarkdown_stages [of s h']
      by simp
    with p c f show ?thesis
      by simp
  qed
qed

text \<open>
  Repeated application reaches a fixed point. Every application that reports a change
  removes delimiter characters and adds none, so after as many applications as the
  input has delimiter characters one more application returns the text as it is, with
  \<open>changed = false\<close>.
\<close>

theorem passes_reach_fixed_point:
  "fst (convertInlineMarkdown (fst (passes (delimiter_count s) s h)) h') =
     (fst (passes (delimiter_count s) s h), False)"
  by (rule passes_settle) simp

lemma passes_example:
  "fst (passes 2 ''**a*b*c**'' []) = ''<strong>a<em>b</em>c</strong>''"
  by code_simp

text \<open>
  A conversion never shortens the text.
\<close>

theorem conversion_never_shortens:
  "length s \<le> length (fst (fst (convertInlineMarkdown s h)))"
  using convertInlineMarkdown_grown [of s h] by (auto simp: grown_def split: if_splits)

text \<open>
  A blur right after a blur makes no call to the store: the first one has stored the
  buffer in \<open>initialContentRef\<close>.
\<close>

theorem blur_twice_commits_once:
  "snd (NestedBlock_handleBlur (fst (NestedBlock_handleBlur nb))) = []"
  by (auto simp: NestedBlock_handleBlur_def Let_def split: option.splits)

text \<open>
  A NestedBlock that has just been mounted for a block of the store (its element
  empty, \<open>initialContentRef\<close> null) makes no call on a blur without an edit: the two
  effects have written the block's content to both.
\<close>

theorem blur_after_mount_commits_nothing:
  "snd (NestedBlock_handleBlur (NestedBlock_effects (Some b)
     \<lparr>blockId = bid, contentRef = Some \<lparr>innerHTML = [], caret = 0\<rparr>, initialContentRef = None\<rparr>)) = []"
  by (simp add: NestedBlock_handleBlur_def NestedBlock_effects_def Let_def)

end
